theory Spec2Isabelle
  imports Complex_Main
begin

section \<open>Values, players and the tracking state of main.py\<close>

text \<open>
  The module keeps its state in global dictionaries (lines 42 to 48). Those that are only
  read and written by key are maps; \<open>player_seen\<close> is iterated (by the save loop and by the
  commands), so it is an association list in insertion order. Clock readings and world
  coordinates are Python floats; they are modelled as real numbers, so the rounding of
  float arithmetic itself is not part of the model. Steam ids and counters are Python
  integers, hence \<open>int\<close>.
\<close>

datatype error = KeyError | TypeError | ValueError | AttributeError | JSONDecodeError | OSError

text \<open>
  The values a dictionary entry of \<open>player_seen\<close> can hold: what the literal of line 171
  builds and what \<open>json.load\<close> can return.
\<close>

datatype pyval =
    PNone
  | PBool bool
  | PInt int
  | PFloat real
  | PStr string
  | PList "pyval list"
  | PDict "(string \<times> pyval) list"

text \<open>The fields of \<open>RustTeamMember\<close> that main.py reads.\<close>

record player =
  steam_id :: int
  name :: string
  x :: real
  y :: real
  is_online :: bool

text \<open>
  The messages handed to \<open>send_to_discord\<close>, one constructor for each f-string:
  line 186 (logged in), line 188 (logged out), line 154 (has been idle for ...) and
  line 160 (is no longer AFK, idle for ...). The first argument is the player's name,
  the second the text produced by \<open>format_minutes\<close>.
\<close>

datatype notification =
    LoggedIn string
  | LoggedOut string
  | IdleWarning string string
  | NoLongerIdle string string

record state =
  last_positions :: "int \<rightharpoonup> int \<times> int"
  idle_timers :: "int \<rightharpoonup> int"
  idle_notify_intervals :: "int \<rightharpoonup> int"
  player_online :: "int \<rightharpoonup> bool"
  player_seen :: "(int \<times> pyval) list"
  movement_trail :: "int \<rightharpoonup> (real \<times> int \<times> int) list"
  last_update :: "int \<rightharpoonup> real"
  outbox :: "notification list"

definition init_state :: state where
  "init_state = \<lparr>last_positions = Map.empty, idle_timers = Map.empty,
     idle_notify_intervals = Map.empty, player_online = Map.empty, player_seen = [],
     movement_trail = Map.empty, last_update = Map.empty, outbox = []\<rparr>"

section \<open>Python primitives\<close>

text \<open>\<open>d[k] = v\<close> on a dictionary: an existing key keeps its place, a new key goes last.\<close>

fun dict_set :: "'k \<Rightarrow> 'v \<Rightarrow> ('k \<times> 'v) list \<Rightarrow> ('k \<times> 'v) list" where
  "dict_set k v [] = [(k, v)]"
| "dict_set k v ((k', v') # d) = (if k' = k then (k, v) # d else (k', v') # dict_set k v d)"

text \<open>\<open>int(f)\<close> on a float truncates towards zero.\<close>

definition py_trunc :: "real \<Rightarrow> int" where
  "py_trunc r = (if 0 \<le> r then \<lfloor>r\<rfloor> else \<lceil>r\<rceil>)"

text \<open>\<open>round(f)\<close> with one argument rounds to the nearest integer, a tie to the even one.\<close>

definition py_round :: "real \<Rightarrow> int" where
  "py_round r =
     (let f = \<lfloor>r\<rfloor>; d = r - of_int f
      in if d < 1 / 2 then f else if 1 / 2 < d then f + 1 else if even f then f else f + 1)"

text \<open>
  \<open>str(n)\<close> for an integer, as the f-strings and the save loop use it. The interpreter's
  limit on the number of digits of such a conversion (4300 by default) is not modelled;
  a steam id has 17 digits.
\<close>

definition digit_char :: "nat \<Rightarrow> char" where
  "digit_char d = ''0123456789'' ! d"

fun str_nat :: "nat \<Rightarrow> string" where
  "str_nat n = (if n < 10 then [digit_char n] else str_nat (n div 10) @ [digit_char (n mod 10)])"

declare str_nat.simps [simp del]

definition py_str :: "int \<Rightarrow> string" where
  "py_str k = (if k < 0 then CHR ''-'' # str_nat (nat (- k)) else str_nat (nat k))"

text \<open>Lines 52 to 54. Every caller passes an integer, so \<open>//\<close> is floor division on \<open>int\<close>.\<close>

definition format_minutes :: "int \<Rightarrow> string" where
  "format_minutes seconds =
     (let minutes = seconds div 60
      in if 60 \<le> minutes then py_str (minutes div 60) @ ''h '' @ py_str (minutes mod 60) @ ''m''
         else py_str minutes @ ''m'')"

section \<open>handle\_idle (lines 132 to 164)\<close>

text \<open>
  The four \<open>if sid not in ...\<close> statements give a missing entry its default; the locals
  below are the entries' values after them. The clock reading \<open>now\<close> is a parameter.
\<close>

definition handle_idle :: "player \<Rightarrow> real \<Rightarrow> state \<Rightarrow> state" where
  "handle_idle p now s =
     (let sid = steam_id p;
          pos = (py_round (x p), py_round (y p));
          last_pos = (case last_positions s sid of None \<Rightarrow> pos | Some q \<Rightarrow> q);
          timer = (case idle_timers s sid of None \<Rightarrow> 0 | Some c \<Rightarrow> c);
          notify_at = (case idle_notify_intervals s sid of None \<Rightarrow> 5 | Some t \<Rightarrow> t);
          trail = (case movement_trail s sid of None \<Rightarrow> [] | Some l \<Rightarrow> l) @ [(now, pos)]
      in if pos = last_pos then
           s\<lparr>last_positions := (last_positions s)(sid \<mapsto> last_pos),
             idle_timers := (idle_timers s)(sid \<mapsto> timer + 1),
             idle_notify_intervals := (idle_notify_intervals s)
               (sid \<mapsto> (if timer + 1 = notify_at then min (notify_at * 2) 60 else notify_at)),
             movement_trail := (movement_trail s)(sid \<mapsto> trail),
             outbox := outbox s @
               (if timer + 1 = notify_at
                then [IdleWarning (name p) (format_minutes (notify_at * 60))] else [])\<rparr>
         else
           s\<lparr>last_positions := (last_positions s)(sid \<mapsto> pos),
             idle_timers := (idle_timers s)(sid \<mapsto> 0),
             idle_notify_intervals := (idle_notify_intervals s)(sid \<mapsto> 5),
             movement_trail := (movement_trail s)(sid \<mapsto> trail),
             outbox := outbox s @
               (if 5 \<le> timer then [NoLongerIdle (name p) (format_minutes timer)] else [])\<rparr>)"

text \<open>The trail of a player: empty until the first sample.\<close>

definition trail_of :: "state \<Rightarrow> int \<Rightarrow> (real \<times> int \<times> int) list" where
  "trail_of s sid = (case movement_trail s sid of None \<Rightarrow> [] | Some l \<Rightarrow> l)"

section \<open>update\_presence (lines 166 to 196)\<close>

text \<open>
  Reading and writing an item of a stored entry. A dictionary without the key raises
  KeyError; a value that is no dictionary cannot be subscripted by a string (TypeError).
\<close>

definition getitem :: "pyval \<Rightarrow> string \<Rightarrow> error + pyval" where
  "getitem e k =
     (case e of
        PDict d \<Rightarrow> (case map_of d k of None \<Rightarrow> Inl KeyError | Some v \<Rightarrow> Inr v)
      | _ \<Rightarrow> Inl TypeError)"

definition setitem :: "pyval \<Rightarrow> string \<Rightarrow> pyval \<Rightarrow> error + pyval" where
  "setitem e k v = (case e of PDict d \<Rightarrow> Inr (PDict (dict_set k v d)) | _ \<Rightarrow> Inl TypeError)"

text \<open>\<open>v + delta\<close> for an integer \<open>delta\<close>: numbers add (a bool counts as 0 or 1), the rest raises.\<close>

definition py_add_int :: "pyval \<Rightarrow> int \<Rightarrow> error + pyval" where
  "py_add_int v delta =
     (case v of
        PInt a \<Rightarrow> Inr (PInt (a + delta))
      | PBool b \<Rightarrow> Inr (PInt ((if b then 1 else 0) + delta))
      | PFloat r \<Rightarrow> Inr (PFloat (r + of_int delta))
      | _ \<Rightarrow> Inl TypeError)"

text \<open>\<open>e[k] += delta\<close>: read the item, add, store it back.\<close>

definition item_iadd :: "pyval \<Rightarrow> string \<Rightarrow> int \<Rightarrow> error + pyval" where
  "item_iadd e k delta =
     (case getitem e k of
        Inl err \<Rightarrow> Inl err
      | Inr v \<Rightarrow> (case py_add_int v delta of Inl err \<Rightarrow> Inl err | Inr w \<Rightarrow> setitem e k w))"

text \<open>The dictionary literal of lines 171 to 177.\<close>

definition new_entry :: "player \<Rightarrow> real \<Rightarrow> pyval" where
  "new_entry p now =
     PDict [(''name'', PStr (name p)), (''first'', PInt (py_trunc now)),
            (''last'', PInt (py_trunc now)), (''total'', PInt 0), (''idle'', PInt 0)]"

text \<open>
  The result pairs the outcome (\<open>Inl\<close> an exception raised, \<open>Inr\<close> a normal return) with
  the state at that moment: what was stored before an exception stays stored. The
  notification is scheduled before the statistics are touched.
\<close>

definition update_presence :: "player \<Rightarrow> real \<Rightarrow> state \<Rightarrow> (error + unit) \<times> state" where
  "update_presence p now s =
     (let sid = steam_id p;
          seen = (case map_of (player_seen s) sid of
                    None \<Rightarrow> player_seen s @ [(sid, new_entry p now)]
                  | Some _ \<Rightarrow> player_seen s);
          entry = (case map_of (player_seen s) sid of None \<Rightarrow> new_entry p now | Some e \<Rightarrow> e);
          delta = py_trunc (now - (case last_update s sid of None \<Rightarrow> now | Some t \<Rightarrow> t));
          was_online = (player_online s sid = Some True);
          s1 = s\<lparr>player_seen := seen,
                 last_update := (last_update s)(sid \<mapsto> now),
                 outbox := outbox s @
                   (if \<not> was_online \<and> is_online p then [LoggedIn (name p)]
                    else if was_online \<and> \<not> is_online p then [LoggedOut (name p)]
                    else [])\<rparr>
      in if is_online p then
           (case item_iadd entry ''total'' delta of
              Inl err \<Rightarrow> (Inl err, s1)
            | Inr e1 \<Rightarrow>
                (case (if 1 \<le> (case idle_timers s sid of None \<Rightarrow> 0 | Some c \<Rightarrow> c)
                       then item_iadd e1 ''idle'' delta else Inr e1) of
                   Inl err \<Rightarrow> (Inl err, s1\<lparr>player_seen := dict_set sid e1 seen\<rparr>)
                 | Inr e2 \<Rightarrow>
                     (case setitem e2 ''last'' (PInt (py_trunc now)) of
                        Inl err \<Rightarrow> (Inl err, s1\<lparr>player_seen := dict_set sid e2 seen\<rparr>)
                      | Inr e3 \<Rightarrow>
                          (Inr (), s1\<lparr>player_seen := dict_set sid e3 seen,
                                      player_online := (player_online s)(sid \<mapsto> True)\<rparr>))))
         else (Inr (), s1\<lparr>player_online := (player_online s)(sid \<mapsto> False)\<rparr>))"

text \<open>An item of a player's stored entry, when the player is stored and the entry has it.\<close>

definition stat :: "state \<Rightarrow> int \<Rightarrow> string \<Rightarrow> pyval option" where
  "stat s sid k =
     (case map_of (player_seen s) sid of
        None \<Rightarrow> None
      | Some e \<Rightarrow> (case getitem e k of Inl _ \<Rightarrow> None | Inr v \<Rightarrow> Some v))"

section \<open>rust\_polling\_loop (lines 199 to 215)\<close>

text \<open>
  What \<open>get_team_info\<close> does in one iteration: it raises, it returns nothing, or it returns
  the members (possibly none). Each member comes with the two clock readings its
  processing makes, the first in \<open>update_presence\<close>, the second in \<open>handle_idle\<close>.
\<close>

datatype fetch = Fetch_raises | No_team_info | Members "(player \<times> real \<times> real) list"

text \<open>The \<open>for\<close> loop of lines 208 to 211; an exception ends it.\<close>

fun process_members :: "(player \<times> real \<times> real) list \<Rightarrow> state \<Rightarrow> (error + unit) \<times> state" where
  "process_members [] s = (Inr (), s)"
| "process_members ((p, t1, t2) # ms) s =
     (case update_presence p t1 s of
        (Inl err, s') \<Rightarrow> (Inl err, s')
      | (Inr _, s') \<Rightarrow> process_members ms (if is_online p then handle_idle p t2 s' else s'))"

text \<open>
  One iteration of the \<open>while True\<close> loop: the state it leaves and the number of seconds it
  sleeps before the next iteration. An exception is caught by line 213 and the iteration
  goes on to the sleep of line 215; the empty roster sleeps at line 205 and continues.
\<close>

definition poll_cycle :: "fetch \<Rightarrow> state \<Rightarrow> state \<times> nat" where
  "poll_cycle f s =
     (case f of
        Fetch_raises \<Rightarrow> (s, 60)
      | No_team_info \<Rightarrow> (s, 10)
      | Members ms \<Rightarrow> (if ms = [] then (s, 10) else (snd (process_members ms s), 60)))"

section \<open>Sequences of calls\<close>

text \<open>
  Any sequence of calls of the two observers, in any interleaving and for any players; a
  call of \<open>update_presence\<close> that raises leaves its partial state behind, as in the loop.
\<close>

datatype event = Presence player real | Idle player real

fun step :: "event \<Rightarrow> state \<Rightarrow> state" where
  "step (Presence p t) s = snd (update_presence p t s)"
| "step (Idle p t) s = handle_idle p t s"

definition run :: "event list \<Rightarrow> state \<Rightarrow> state" where
  "run evs s = fold step evs s"

text \<open>The clock readings of the \<open>update_presence\<close> calls, in call order.\<close>

fun presence_times :: "event list \<Rightarrow> real list" where
  "presence_times [] = []"
| "presence_times (Presence p t # evs) = t # presence_times evs"
| "presence_times (Idle p t # evs) = presence_times evs"

text \<open>An entry whose idle seconds and total seconds are integers, the first at most the second.\<close>

definition idle_within_total :: "pyval \<Rightarrow> bool" where
  "idle_within_total e =
     (case getitem e ''idle'' of
        Inr (PInt i) \<Rightarrow> (case getitem e ''total'' of Inr (PInt t) \<Rightarrow> i \<le> t | _ \<Rightarrow> False)
      | _ \<Rightarrow> False)"

text \<open>Consecutive calls of \<open>handle_idle\<close>, each with its clock reading.\<close>

definition idle_run :: "(player \<times> real) list \<Rightarrow> state \<Rightarrow> state" where
  "idle_run obs s = fold (\<lambda>(p, t). handle_idle p t) obs s"

section \<open>Persistence (lines 104 to 122)\<close>

text \<open>
  The json library is not part of the repository. A file is identified with what
  \<open>open\<close> and \<open>json.load\<close> make of it: it is absent, it cannot be opened, its text is not
  JSON, or its text decodes to a value; \<open>json.dump\<close> of a value with string keys writes a
  text that decodes to that value.
\<close>

datatype save_file = Absent | Unreadable | Malformed | Document pyval

text \<open>
  \<open>int(k)\<close> on a string: surrounding whitespace is dropped, a sign may come first, and the
  digits may be grouped by single underscores. Strings are taken over the code points
  below 256, whose whitespace is listed here.
\<close>

definition is_space :: "char \<Rightarrow> bool" where
  "is_space c =
     (let n = (of_char c :: nat)
      in (9 \<le> n \<and> n \<le> 13) \<or> (28 \<le> n \<and> n \<le> 32) \<or> n = 133 \<or> n = 160)"

definition is_digit :: "char \<Rightarrow> bool" where
  "is_digit c = (48 \<le> (of_char c :: nat) \<and> (of_char c :: nat) \<le> 57)"

definition digit_val :: "char \<Rightarrow> nat" where
  "digit_val c = of_char c - 48"

definition strip :: "string \<Rightarrow> string" where
  "strip s = rev (dropWhile is_space (rev (dropWhile is_space s)))"

fun parse_rest :: "string \<Rightarrow> nat \<Rightarrow> nat option" where
  "parse_rest [] n = Some n"
| "parse_rest [c] n = (if is_digit c then Some (10 * n + digit_val c) else None)"
| "parse_rest (c # d # r) n =
     (if is_digit c then parse_rest (d # r) (10 * n + digit_val c)
      else if c = CHR ''_'' \<and> is_digit d then parse_rest r (10 * n + digit_val d)
      else None)"

definition parse_digits :: "string \<Rightarrow> nat option" where
  "parse_digits s =
     (case s of [] \<Rightarrow> None | c # r \<Rightarrow> if is_digit c then parse_rest r (digit_val c) else None)"

definition py_int :: "string \<Rightarrow> int option" where
  "py_int s =
     (case strip s of
        [] \<Rightarrow> None
      | c # r \<Rightarrow>
          if c = CHR ''-'' then map_option (\<lambda>n. - int n) (parse_digits r)
          else if c = CHR ''+'' then map_option int (parse_digits r)
          else map_option int (parse_digits (c # r)))"

text \<open>The comprehension of line 108, \<open>{str(k): v for k, v in player_seen.items()}\<close>.\<close>

fun save_items :: "(int \<times> pyval) list \<Rightarrow> (string \<times> pyval) list \<Rightarrow> (string \<times> pyval) list" where
  "save_items [] acc = acc"
| "save_items ((k, v) # kvs) acc = save_items kvs (dict_set (py_str k) v acc)"

text \<open>
  One iteration of \<open>save_player_data_loop\<close>: the file it leaves. When the file cannot be
  opened for writing the exception is caught (line 110) and the file stays as it was.
\<close>

definition save_player_data :: "bool \<Rightarrow> state \<Rightarrow> save_file \<Rightarrow> save_file" where
  "save_player_data can_open s f =
     (if can_open then Document (PDict (save_items (player_seen s) [])) else f)"

text \<open>
  The comprehension of line 118, \<open>{int(k): v for k, v in json.load(f).items()}\<close>: the first
  key that is no integer raises ValueError.
\<close>

fun load_items :: "(string \<times> pyval) list \<Rightarrow> (int \<times> pyval) list \<Rightarrow> error + (int \<times> pyval) list" where
  "load_items [] acc = Inr acc"
| "load_items ((k, v) # kvs) acc =
     (case py_int k of None \<Rightarrow> Inl ValueError | Some i \<Rightarrow> load_items kvs (dict_set i v acc))"

text \<open>The two messages \<open>load_player_data\<close> prints, line 119 and line 121.\<close>

datatype load_message = Loaded | Starting_fresh

text \<open>
  Only FileNotFoundError is caught. Any other exception leaves the function before the
  assignment to \<open>player_seen\<close>: a decoded value that is no dictionary has no \<open>items\<close>.
\<close>

definition load_player_data :: "save_file \<Rightarrow> state \<Rightarrow> (error + load_message) \<times> state" where
  "load_player_data f s =
     (case f of
        Absent \<Rightarrow> (Inr Starting_fresh, s\<lparr>player_seen := []\<rparr>)
      | Unreadable \<Rightarrow> (Inl OSError, s)
      | Malformed \<Rightarrow> (Inl JSONDecodeError, s)
      | Document v \<Rightarrow>
          (case v of
             PDict items \<Rightarrow>
               (case load_items items [] of
                  Inl err \<Rightarrow> (Inl err, s)
                | Inr seen \<Rightarrow> (Inr Loaded, s\<lparr>player_seen := seen\<rparr>))
           | _ \<Rightarrow> (Inl AttributeError, s)))"

section \<open>Vocabulary of the properties\<close>

text \<open>
  The counter and the threshold of a player as the code reads them: a player without an
  entry has the defaults of lines 140 and 142 (\<open>idle_timers.get(sid, 0)\<close> at line 192).
\<close>

definition idle_count :: "state \<Rightarrow> int \<Rightarrow> int" where
  "idle_count s sid = (case idle_timers s sid of None \<Rightarrow> 0 | Some c \<Rightarrow> c)"

definition notify_threshold :: "state \<Rightarrow> int \<Rightarrow> int" where
  "notify_threshold s sid = (case idle_notify_intervals s sid of None \<Rightarrow> 5 | Some t \<Rightarrow> t)"

text \<open>
  The specification's schedule: the threshold in force after \<open>n\<close> idle ticks runs through
  5, 10, 20, 40, 60, 60, ..., and a warning is due at the ticks 5, 10, 20, 40 and 60.
\<close>

definition threshold_after :: "nat \<Rightarrow> int" where
  "threshold_after n =
     (if n < 5 then 5 else if n < 10 then 10 else if n < 20 then 20 else if n < 40 then 40 else 60)"

definition warning_due :: "nat \<Rightarrow> bool" where
  "warning_due n = (n = 5 \<or> n = 10 \<or> n = 20 \<or> n = 40 \<or> n = 60)"

text \<open>
  The warnings the specification expects from a run of observations at an unchanged
  position that starts after \<open>n\<close> idle ticks: one at each tick that is due, naming the
  player as observed at that tick and the tick count as minutes.
\<close>

fun warnings_from :: "nat \<Rightarrow> (player \<times> real) list \<Rightarrow> notification list" where
  "warnings_from n [] = []"
| "warnings_from n ((p, t) # obs) =
     (if warning_due (Suc n)
      then [IdleWarning (name p) (format_minutes (int (Suc n) * 60))] else [])
     @ warnings_from (Suc n) obs"

text \<open>An observation of player \<open>sid\<close> whose rounded position is \<open>pos\<close>.\<close>

definition same_place :: "int \<Rightarrow> int \<times> int \<Rightarrow> player \<times> real \<Rightarrow> bool" where
  "same_place sid pos ob =
     (steam_id (fst ob) = sid \<and> (py_round (x (fst ob)), py_round (y (fst ob))) = pos)"

text \<open>Every stored entry keeps its idle seconds within its total seconds.\<close>

definition seen_ok :: "state \<Rightarrow> bool" where
  "seen_ok s = (\<forall>(sid, e) \<in> set (player_seen s). idle_within_total e)"

text \<open>No stored \<open>last_update\<close> reading is later than any of the readings \<open>ts\<close> still to come.\<close>

definition clock_ok :: "state \<Rightarrow> real list \<Rightarrow> bool" where
  "clock_ok s ts = (\<forall>sid u. last_update s sid = Some u \<longrightarrow> (\<forall>t \<in> set ts. u \<le> t))"

text \<open>The entry \<open>update_presence\<close> works on: the stored one, or the new one of line 171.\<close>

definition entry_of :: "player \<Rightarrow> real \<Rightarrow> state \<Rightarrow> pyval" where
  "entry_of p now s =
     (case map_of (player_seen s) (steam_id p) of None \<Rightarrow> new_entry p now | Some e \<Rightarrow> e)"

section \<open>Dictionary updates\<close>

lemma map_of_dict_set: "map_of (dict_set k v d) k' = (if k' = k then Some v else map_of d k')"
  by (induction d) auto

lemma dict_set_fresh: "map_of d k = None \<Longrightarrow> dict_set k v d = d @ [(k, v)]"
  by (induction d) (auto split: if_splits)

lemma set_dict_set: "set (dict_set k v d) \<subseteq> insert (k, v) (set d)"
  by (induction d) (auto split: if_splits)

lemma setitem_other: "setitem e k v = Inr e' \<Longrightarrow> k' \<noteq> k \<Longrightarrow> getitem e' k' = getitem e k'"
  by (auto simp: setitem_def getitem_def map_of_dict_set split: pyval.splits)

lemma item_iadd_other: "item_iadd e k n = Inr e' \<Longrightarrow> k' \<noteq> k \<Longrightarrow> getitem e' k' = getitem e k'"
  by (auto simp: item_iadd_def split: sum.splits dest: setitem_other)

section \<open>The movement trail\<close>

text \<open>
  Claim C8. Every call of \<open>handle_idle\<close> appends exactly one entry, the clock reading with
  the rounded position, to the trail of the player observed, whether the position changed
  or not; the entries recorded before stay as they were, in the same order, and the trail
  of every other player is untouched.
\<close>

theorem handle_idle_appends_trail:
  "trail_of (handle_idle p now s) sid =
     trail_of s sid @ (if sid = steam_id p then [(now, (py_round (x p), py_round (y p)))] else [])"
  by (simp add: handle_idle_def trail_of_def Let_def)

section \<open>Login and logout notifications\<close>

text \<open>
  Claim C6. A call of \<open>update_presence\<close> schedules exactly one "logged in" message when the
  stored online flag was false or absent and the player is online now, exactly one
  "logged out" message when the stored flag was true and the player is offline now, and
  nothing when the flag is unchanged. This holds for every stored entry, also one on which
  the statistics update raises afterwards.
\<close>

theorem update_presence_notifications:
  "outbox (snd (update_presence p now s)) =
     outbox s @
       (if player_online s (steam_id p) \<noteq> Some True \<and> is_online p then [LoggedIn (name p)]
        else if player_online s (steam_id p) = Some True \<and> \<not> is_online p
             then [LoggedOut (name p)]
        else [])"
  unfolding update_presence_def Let_def
  by (simp split: sum.split)

section \<open>The stored name\<close>

text \<open>
  Outside the three items it updates, \<open>update_presence\<close> leaves the player's entry as it
  found it (or as line 171 created it), whether it returns or raises.
\<close>

lemma update_presence_entry:
  assumes "k \<noteq> ''total''" and "k \<noteq> ''idle''" and "k \<noteq> ''last''"
  shows "\<exists>e'. map_of (player_seen (snd (update_presence p now s))) (steam_id p) = Some e'
            \<and> getitem e' k = getitem (entry_of p now s) k"
proof -
  let ?sid = "steam_id p"
  let ?seen = "case map_of (player_seen s) ?sid of
                 None \<Rightarrow> player_seen s @ [(?sid, new_entry p now)]
               | Some _ \<Rightarrow> player_seen s"
  let ?e = "entry_of p now s"
  let ?d = "py_trunc (now - (case last_update s ?sid of None \<Rightarrow> now | Some t \<Rightarrow> t))"
  have seen: "map_of ?seen ?sid = Some ?e"
    by (simp add: entry_of_def map_add_def split: option.splits)
  show ?thesis
  proof (cases "is_online p")
    case False
    then show ?thesis
      using seen by (simp add: update_presence_def Let_def entry_of_def)
  next
    case on: True
    show ?thesis
    proof (cases "item_iadd ?e ''total'' ?d")
      case (Inl err)
      then show ?thesis
        using seen on by (simp add: update_presence_def Let_def entry_of_def)
    next
      case e1: (Inr e1)
      have g1: "getitem e1 k = getitem ?e k"
        using item_iadd_other[OF e1] assms by simp
      let ?r2 = "if 1 \<le> (case idle_timers s ?sid of None \<Rightarrow> 0 | Some c \<Rightarrow> c)
                 then item_iadd e1 ''idle'' ?d else Inr e1"
      show ?thesis
      proof (cases ?r2)
        case (Inl err)
        then show ?thesis
          using seen on e1 g1
          by (simp add: update_presence_def Let_def entry_of_def map_of_dict_set)
      next
        case e2: (Inr e2)
        have g2: "getitem e2 k = getitem ?e k"
          using e2 g1 item_iadd_other[of e1 "''idle''" ?d e2 k] assms
          by (auto split: if_splits)
        show ?thesis
        proof (cases "setitem e2 ''last'' (PInt (py_trunc now))")
          case (Inl err)
          then show ?thesis
            using seen on e1 e2 g2
            by (simp add: update_presence_def Let_def entry_of_def map_of_dict_set)
        next
          case e3: (Inr e3)
          have g3: "getitem e3 k = getitem ?e k"
            using setitem_other[OF e3] g2 assms by simp
          show ?thesis
            using seen on e1 e2 e3 g3
            by (simp add: update_presence_def Let_def entry_of_def map_of_dict_set)
        qed
      qed
    qed
  qed
qed

text \<open>
  Claim C1, as stated: after any call the stored name is the name observed. It fails for
  a player already stored: the name is written once, by the literal of line 171, and no
  later statement assigns it. Here player 7 is first seen as "ann" and observed a minute
  later as "bob"; the stored name is still "ann".
\<close>

theorem stored_name_counterexample:
  "stat (snd (update_presence
                \<lparr>steam_id = 7, name = ''bob'', x = 0, y = 0, is_online = True\<rparr> 60
                (snd (update_presence
                        \<lparr>steam_id = 7, name = ''ann'', x = 0, y = 0, is_online = True\<rparr> 0
                        init_state))))
        7 ''name''
     \<noteq> Some (PStr ''bob'')"
  by (simp add: update_presence_def init_state_def Let_def stat_def getitem_def setitem_def
        item_iadd_def py_add_int_def new_entry_def py_trunc_def)

text \<open>
  Claim C1, amended. The first call for a player stores the name observed; every later
  call, online or offline, leaves the stored name as it is.
\<close>

theorem stored_name_set_once:
  "(map_of (player_seen s) (steam_id p) = None \<longrightarrow>
      stat (snd (update_presence p now s)) (steam_id p) ''name'' = Some (PStr (name p)))
   \<and> (map_of (player_seen s) (steam_id p) \<noteq> None \<longrightarrow>
      stat (snd (update_presence p now s)) (steam_id p) ''name'' = stat s (steam_id p) ''name'')"
proof -
  obtain e' where e': "map_of (player_seen (snd (update_presence p now s))) (steam_id p) = Some e'"
    "getitem e' ''name'' = getitem (entry_of p now s) ''name''"
    using update_presence_entry[of "''name''" p now s] by auto
  show ?thesis
    using e' by (auto simp add: stat_def entry_of_def new_entry_def getitem_def)
qed

theorem stored_name_set_once_witness:
  "stat (snd (update_presence
                \<lparr>steam_id = 7, name = ''ann'', x = 0, y = 0, is_online = True\<rparr> 0 init_state))
        7 ''name'' = Some (PStr ''ann'')
   \<and> stat (snd (update_presence
                \<lparr>steam_id = 7, name = ''bob'', x = 0, y = 0, is_online = False\<rparr> 60
                (init_state\<lparr>player_seen := [(7, PDict [(''name'', PStr ''ann'')])]\<rparr>)))
        7 ''name'' = Some (PStr ''ann'')"
  using stored_name_set_once
          [of init_state "\<lparr>steam_id = 7, name = ''ann'', x = 0, y = 0, is_online = True\<rparr>" 0]
        stored_name_set_once
          [of "init_state\<lparr>player_seen := [(7, PDict [(''name'', PStr ''ann'')])]\<rparr>"
              "\<lparr>steam_id = 7, name = ''bob'', x = 0, y = 0, is_online = False\<rparr>" 60]
  by (simp add: init_state_def stat_def getitem_def)

section \<open>The wait of the polling loop\<close>

text \<open>
  Claim C5, as stated: a cycle whose roster is empty or missing waits the full 60 seconds.
  It fails: line 205 sleeps 10 seconds and line 206 continues with the next iteration,
  so the sleep of line 215 is not reached.
\<close>

theorem empty_roster_wait_counterexample:
  "snd (poll_cycle No_team_info init_state) \<noteq> 60 \<and> snd (poll_cycle (Members []) init_state) \<noteq> 60"
  by (simp add: poll_cycle_def)

text \<open>
  Claim C5, amended. A cycle whose fetch raises skips the processing and waits 60 seconds,
  the wait of a cycle that processed its members. A cycle whose roster is missing or empty
  skips the processing and waits 10 seconds.
\<close>

theorem poll_cycle_wait:
  "poll_cycle Fetch_raises s = (s, 60)
   \<and> poll_cycle No_team_info s = (s, 10)
   \<and> poll_cycle (Members []) s = (s, 10)
   \<and> snd (poll_cycle (Members (m # ms)) s) = 60"
  by (simp add: poll_cycle_def)

section \<open>Loading the statistics\<close>

lemma dict_set_not_empty: "dict_set k v d \<noteq> []"
  by (cases d) (auto split: if_splits)

lemma load_items_not_empty: "load_items kvs acc = Inr seen \<Longrightarrow> acc \<noteq> [] \<Longrightarrow> seen \<noteq> []"
proof (induction kvs arbitrary: acc)
  case Nil
  then show ?case by simp
next
  case (Cons kv kvs)
  obtain k v where kv: "kv = (k, v)" by (cases kv)
  show ?case
  proof (cases "py_int k")
    case None
    then show ?thesis using Cons.prems(1) kv by simp
  next
    case (Some i)
    then have "load_items kvs (dict_set i v acc) = Inr seen"
      using Cons.prems(1) kv by simp
    then show ?thesis
      using Cons.IH[of "dict_set i v acc"] dict_set_not_empty[of i v acc] by blast
  qed
qed

lemma load_items_empty_result: "load_items kvs [] = Inr [] \<Longrightarrow> kvs = []"
proof (cases kvs)
  case Nil
  then show ?thesis by simp
next
  case (Cons kv kvs')
  assume r: "load_items kvs [] = Inr []"
  obtain k v where kv: "kv = (k, v)" by (cases kv)
  show ?thesis
  proof (cases "py_int k")
    case None
    then show ?thesis using r Cons kv by simp
  next
    case (Some i)
    then have "load_items kvs' (dict_set i v []) = Inr []"
      using r Cons kv by simp
    then show ?thesis
      using load_items_not_empty[of kvs' "dict_set i v []" "[]"] by simp
  qed
qed

text \<open>
  Claim C10, as stated: \<open>load_player_data\<close> leaves \<open>player_seen\<close> empty without raising
  exactly when the file is absent. It fails for a file that is present and holds an empty
  JSON object, which is what an iteration of the save loop writes while no player is
  stored: the regular branch (line 118) loads it, without raising, to the empty dictionary.
\<close>

theorem load_empty_document_counterexample:
  "save_player_data True init_state Absent = Document (PDict [])
   \<and> Document (PDict []) \<noteq> Absent
   \<and> load_player_data (Document (PDict [])) init_state
       = (Inr Loaded, init_state\<lparr>player_seen := []\<rparr>)"
  by (simp add: save_player_data_def load_player_data_def init_state_def)

text \<open>
  Claim C10, amended. \<open>load_player_data\<close> returns without raising and with \<open>player_seen\<close>
  empty exactly when the file is absent or holds an empty JSON object. Its fallback, the
  assignment of line 122, is taken exactly when the file is absent, and it does not raise.
  A file whose text is not JSON makes the call raise, with no fallback, and \<open>player_seen\<close>
  is what it was before the call.
\<close>

theorem load_player_data_empty_start:
  "(((fst (load_player_data f s) = Inr Loaded \<or> fst (load_player_data f s) = Inr Starting_fresh)
      \<and> player_seen (snd (load_player_data f s)) = [])
     \<longleftrightarrow> (f = Absent \<or> f = Document (PDict [])))
   \<and> (fst (load_player_data f s) = Inr Starting_fresh \<longleftrightarrow> f = Absent)
   \<and> load_player_data Absent s = (Inr Starting_fresh, s\<lparr>player_seen := []\<rparr>)
   \<and> load_player_data Malformed s = (Inl JSONDecodeError, s)"
proof (intro conjI)
  show "((fst (load_player_data f s) = Inr Loaded \<or> fst (load_player_data f s) = Inr Starting_fresh)
      \<and> player_seen (snd (load_player_data f s)) = [])
     \<longleftrightarrow> (f = Absent \<or> f = Document (PDict []))"
  proof (cases f)
    case Absent
    then show ?thesis by (simp add: load_player_data_def)
  next
    case Unreadable
    then show ?thesis by (simp add: load_player_data_def)
  next
    case Malformed
    then show ?thesis by (simp add: load_player_data_def)
  next
    case (Document v)
    show ?thesis
    proof (cases v)
      case (PDict items)
      show ?thesis
      proof (cases "load_items items []")
        case (Inl err)
        then have "items \<noteq> []" by auto
        then show ?thesis
          using Document PDict Inl by (simp add: load_player_data_def)
      next
        case (Inr seen)
        have "seen = [] \<longleftrightarrow> items = []"
          using Inr load_items_empty_result[of items] by auto
        then show ?thesis
          using Document PDict Inr by (simp add: load_player_data_def)
      qed
    qed (simp_all add: Document load_player_data_def)
  qed
  show "fst (load_player_data f s) = Inr Starting_fresh \<longleftrightarrow> f = Absent"
    by (auto simp add: load_player_data_def split: save_file.splits pyval.splits sum.splits)
  show "load_player_data Absent s = (Inr Starting_fresh, s\<lparr>player_seen := []\<rparr>)"
    by (simp add: load_player_data_def)
  show "load_player_data Malformed s = (Inl JSONDecodeError, s)"
    by (simp add: load_player_data_def)
qed

section \<open>The duration reported when a player moves again\<close>

lemma format_minutes_below_hour: "0 \<le> c \<Longrightarrow> c < 60 \<Longrightarrow> format_minutes c = ''0m''"
  by (simp add: format_minutes_def py_str_def str_nat.simps digit_char_def)

text \<open>
  Claim C9. When a player whose counter stands at \<open>c\<close> ticks, with \<open>5 \<le> c < 60\<close>, is seen
  at another rounded position, the message of line 160 is scheduled and its duration text
  is "0m": \<open>format_minutes\<close> receives the tick count and divides it by 60 as if it were
  seconds.
\<close>

theorem no_longer_idle_reports_0m:
  assumes "idle_timers s (steam_id p) = Some c" and "5 \<le> c" and "c < 60"
    and "last_positions s (steam_id p) = Some q"
    and "q \<noteq> (py_round (x p), py_round (y p))"
  shows "outbox (handle_idle p now s) = outbox s @ [NoLongerIdle (name p) ''0m'']"
  using assms by (auto simp add: handle_idle_def Let_def format_minutes_below_hour)

theorem no_longer_idle_reports_0m_witness:
  "outbox (handle_idle \<lparr>steam_id = 7, name = ''ann'', x = 9, y = 0, is_online = True\<rparr> 420
             (init_state\<lparr>last_positions := [7 \<mapsto> (0, 0)], idle_timers := [7 \<mapsto> 6],
                          idle_notify_intervals := [7 \<mapsto> 10]\<rparr>))
     = [NoLongerIdle ''ann'' ''0m'']"
  using no_longer_idle_reports_0m
          [of "init_state\<lparr>last_positions := [7 \<mapsto> (0, 0)], idle_timers := [7 \<mapsto> 6],
                           idle_notify_intervals := [7 \<mapsto> 10]\<rparr>"
              "\<lparr>steam_id = 7, name = ''ann'', x = 9, y = 0, is_online = True\<rparr>" 6 "(0, 0)" 420]
  by (simp add: init_state_def py_round_def)

section \<open>The first observation of a player\<close>

text \<open>
  Claim C3. On the first call of \<open>handle_idle\<close> for a player the rounded position becomes
  the baseline, the threshold is 5 and nothing is scheduled. The counter, which line 140
  sets to 0, is 1 when the call returns: the comparison of line 148 is made against the
  baseline the same call has just stored, so line 149 counts the first sample.
\<close>

theorem first_observation_state:
  assumes "last_positions s (steam_id p) = None" and "idle_timers s (steam_id p) = None"
    and "idle_notify_intervals s (steam_id p) = None"
  shows "last_positions (handle_idle p now s) (steam_id p) = Some (py_round (x p), py_round (y p))
       \<and> idle_timers (handle_idle p now s) (steam_id p) = Some 1
       \<and> idle_notify_intervals (handle_idle p now s) (steam_id p) = Some 5
       \<and> outbox (handle_idle p now s) = outbox s"
  using assms by (simp add: handle_idle_def Let_def)

theorem first_observation_state_witness:
  "last_positions (handle_idle \<lparr>steam_id = 7, name = ''ann'', x = 3 / 2, y = 5 / 2,
       is_online = True\<rparr> 0 init_state) 7 = Some (2, 2)
   \<and> idle_timers (handle_idle \<lparr>steam_id = 7, name = ''ann'', x = 3 / 2, y = 5 / 2,
       is_online = True\<rparr> 0 init_state) 7 = Some 1
   \<and> idle_notify_intervals (handle_idle \<lparr>steam_id = 7, name = ''ann'', x = 3 / 2, y = 5 / 2,
       is_online = True\<rparr> 0 init_state) 7 = Some 5
   \<and> outbox (handle_idle \<lparr>steam_id = 7, name = ''ann'', x = 3 / 2, y = 5 / 2,
       is_online = True\<rparr> 0 init_state) = []"
  using first_observation_state
          [of init_state "\<lparr>steam_id = 7, name = ''ann'', x = 3 / 2, y = 5 / 2, is_online = True\<rparr>" 0]
  by (simp add: init_state_def py_round_def)

section \<open>The schedule of idle warnings\<close>

lemma threshold_hit: "(int n + 1 = threshold_after n) = warning_due (Suc n)"
  by (auto simp: threshold_after_def warning_due_def)

lemma threshold_next:
  "threshold_after (Suc n) =
     (if int n + 1 = threshold_after n then min (threshold_after n * 2) 60 else threshold_after n)"
  by (auto simp: threshold_after_def)

text \<open>
  One observation at the baseline position (or the first one), in a state whose threshold
  is the scheduled one for its counter.
\<close>

lemma stationary_step:
  assumes "last_positions s (steam_id p) = None
           \<or> last_positions s (steam_id p) = Some (py_round (x p), py_round (y p))"
    and "idle_count s (steam_id p) = int n"
    and "notify_threshold s (steam_id p) = threshold_after n"
  shows "last_positions (handle_idle p t s) (steam_id p) = Some (py_round (x p), py_round (y p))"
    and "idle_count (handle_idle p t s) (steam_id p) = int (Suc n)"
    and "notify_threshold (handle_idle p t s) (steam_id p) = threshold_after (Suc n)"
    and "outbox (handle_idle p t s) = outbox s @ warnings_from n [(p, t)]"
proof -
  have eq: "(case last_positions s (steam_id p) of
               None \<Rightarrow> (py_round (x p), py_round (y p)) | Some q \<Rightarrow> q)
            = (py_round (x p), py_round (y p))"
    using assms(1) by auto
  have c: "(case idle_timers s (steam_id p) of None \<Rightarrow> 0 | Some c \<Rightarrow> c) = int n"
    using assms(2) by (simp add: idle_count_def)
  have th: "(case idle_notify_intervals s (steam_id p) of None \<Rightarrow> 5 | Some t \<Rightarrow> t)
            = threshold_after n"
    using assms(3) by (simp add: notify_threshold_def)
  note hit = threshold_hit[of n]
  show "last_positions (handle_idle p t s) (steam_id p) = Some (py_round (x p), py_round (y p))"
    by (simp add: handle_idle_def Let_def eq)
  show "idle_count (handle_idle p t s) (steam_id p) = int (Suc n)"
    by (simp add: handle_idle_def Let_def eq c idle_count_def)
  show "notify_threshold (handle_idle p t s) (steam_id p) = threshold_after (Suc n)"
    using threshold_next[of n] by (simp add: handle_idle_def Let_def eq c th notify_threshold_def)
  have "warning_due (Suc n) \<Longrightarrow> threshold_after n * 60 = int (Suc n) * 60"
    using hit by simp
  then show "outbox (handle_idle p t s) = outbox s @ warnings_from n [(p, t)]"
    by (simp add: handle_idle_def Let_def eq c th hit)
qed

lemma stationary_run:
  assumes "\<forall>ob \<in> set obs. same_place sid pos ob"
    and "last_positions s sid = None \<or> last_positions s sid = Some pos"
    and "idle_count s sid = int n"
    and "notify_threshold s sid = threshold_after n"
  shows "idle_count (idle_run obs s) sid = int (n + length obs)
       \<and> notify_threshold (idle_run obs s) sid = threshold_after (n + length obs)
       \<and> outbox (idle_run obs s) = outbox s @ warnings_from n obs
       \<and> (last_positions (idle_run obs s) sid = None
          \<or> last_positions (idle_run obs s) sid = Some pos)"
  using assms
proof (induction obs arbitrary: s n)
  case Nil
  then show ?case by (simp add: idle_run_def)
next
  case (Cons ob obs)
  obtain p t where ob: "ob = (p, t)" by (cases ob)
  have sp: "steam_id p = sid" "(py_round (x p), py_round (y p)) = pos"
    using Cons.prems(1) ob by (auto simp: same_place_def)
  note st = stationary_step[of s p n t, unfolded sp]
  have a: "last_positions s sid = None \<or> last_positions s sid = Some pos"
    using Cons.prems(2) .
  have r: "idle_run ((p, t) # obs) s = idle_run obs (handle_idle p t s)"
    by (simp add: idle_run_def)
  have rest: "\<forall>ob \<in> set obs. same_place sid pos ob"
    using Cons.prems(1) by simp
  have base: "last_positions (handle_idle p t s) sid = None
              \<or> last_positions (handle_idle p t s) sid = Some pos"
    using st(1)[OF a Cons.prems(3) Cons.prems(4)] by simp
  have ih: "idle_count (idle_run obs (handle_idle p t s)) sid = int (Suc n + length obs)
       \<and> notify_threshold (idle_run obs (handle_idle p t s)) sid
           = threshold_after (Suc n + length obs)
       \<and> outbox (idle_run obs (handle_idle p t s))
           = outbox (handle_idle p t s) @ warnings_from (Suc n) obs
       \<and> (last_positions (idle_run obs (handle_idle p t s)) sid = None
          \<or> last_positions (idle_run obs (handle_idle p t s)) sid = Some pos)"
    by (rule Cons.IH[OF rest base st(2)[OF a Cons.prems(3) Cons.prems(4)]
                      st(3)[OF a Cons.prems(3) Cons.prems(4)]])
  show ?case
    using ih st(4)[OF a Cons.prems(3) Cons.prems(4)] by (simp add: r ob)
qed

lemma move_resets:
  assumes "last_positions s (steam_id p) = Some q" and "q \<noteq> (py_round (x p), py_round (y p))"
  shows "last_positions (handle_idle p t s) (steam_id p) = Some (py_round (x p), py_round (y p))
       \<and> idle_count (handle_idle p t s) (steam_id p) = 0
       \<and> notify_threshold (handle_idle p t s) (steam_id p) = 5"
  using assms by (auto simp: handle_idle_def Let_def idle_count_def notify_threshold_def)

text \<open>The texts of the five warnings: the tick count, printed as minutes.\<close>

lemma warning_texts:
  "format_minutes 300 = ''5m''" "format_minutes 600 = ''10m''"
  "format_minutes 1200 = ''20m''" "format_minutes 2400 = ''40m''"
  "format_minutes 3600 = ''1h 0m''"
  by (simp_all add: format_minutes_def py_str_def str_nat.simps digit_char_def)

text \<open>
  Claim C4. Take a player whose counter is 0 and whose threshold is 5 (a player never
  observed, or one who has just moved) and observe the player any number of times at the
  baseline position. After \<open>k\<close> observations the counter is \<open>k\<close> and the threshold is the
  \<open>k\<close>-th term of 5, 10, 20, 40, 60, 60, ...; a warning was scheduled exactly at the
  observations at which the counter reached 5, 10, 20, 40 and 60, and no other message.
  Once the counter has passed 60 the threshold stays at 60, so the run schedules nothing
  more. An observation at a changed rounded position puts the counter back to 0 and the
  threshold back to 5, with the new position as baseline, which is the starting point of
  the first part again.
\<close>

theorem idle_warning_schedule:
  "((\<forall>ob \<in> set obs. same_place sid pos ob)
      \<and> (last_positions s sid = None \<or> last_positions s sid = Some pos)
      \<and> idle_count s sid = 0 \<and> notify_threshold s sid = 5
    \<longrightarrow> idle_count (idle_run obs s) sid = int (length obs)
        \<and> notify_threshold (idle_run obs s) sid = threshold_after (length obs)
        \<and> outbox (idle_run obs s) = outbox s @ warnings_from 0 obs)
   \<and> (last_positions s (steam_id p) = Some q \<and> q \<noteq> (py_round (x p), py_round (y p))
    \<longrightarrow> last_positions (handle_idle p t s) (steam_id p) = Some (py_round (x p), py_round (y p))
        \<and> idle_count (handle_idle p t s) (steam_id p) = 0
        \<and> notify_threshold (handle_idle p t s) (steam_id p) = 5)"
proof (intro conjI impI)
  assume h: "(\<forall>ob \<in> set obs. same_place sid pos ob)
      \<and> (last_positions s sid = None \<or> last_positions s sid = Some pos)
      \<and> idle_count s sid = 0 \<and> notify_threshold s sid = 5"
  have t0: "notify_threshold s sid = threshold_after 0"
    using h by (simp add: threshold_after_def)
  have c0: "idle_count s sid = int 0"
    using h by simp
  note run = stationary_run[of obs sid pos s 0, OF _ _ c0 t0]
  show "idle_count (idle_run obs s) sid = int (length obs)"
    using run h by simp
  show "notify_threshold (idle_run obs s) sid = threshold_after (length obs)"
    using run h by simp
  show "outbox (idle_run obs s) = outbox s @ warnings_from 0 obs"
    using run h by simp
next
  assume h: "last_positions s (steam_id p) = Some q \<and> q \<noteq> (py_round (x p), py_round (y p))"
  note mv = move_resets[of s p q t]
  show "last_positions (handle_idle p t s) (steam_id p) = Some (py_round (x p), py_round (y p))"
    using mv h by simp
  show "idle_count (handle_idle p t s) (steam_id p) = 0"
    using mv h by simp
  show "notify_threshold (handle_idle p t s) (steam_id p) = 5"
    using mv h by simp
qed

theorem idle_warning_schedule_witness:
  "outbox (idle_run
             [(\<lparr>steam_id = 7, name = ''ann'', x = 0, y = 0, is_online = True\<rparr>, 0),
              (\<lparr>steam_id = 7, name = ''ann'', x = 1 / 4, y = 0, is_online = True\<rparr>, 60),
              (\<lparr>steam_id = 7, name = ''ann'', x = 0, y = 0, is_online = True\<rparr>, 120),
              (\<lparr>steam_id = 7, name = ''ann'', x = 0, y = 0, is_online = True\<rparr>, 180),
              (\<lparr>steam_id = 7, name = ''ann'', x = 0, y = 0, is_online = True\<rparr>, 240),
              (\<lparr>steam_id = 7, name = ''ann'', x = 0, y = 0, is_online = True\<rparr>, 300)]
             init_state)
     = [IdleWarning ''ann'' ''5m'']
   \<and> notify_threshold
        (idle_run
             [(\<lparr>steam_id = 7, name = ''ann'', x = 0, y = 0, is_online = True\<rparr>, 0),
              (\<lparr>steam_id = 7, name = ''ann'', x = 1 / 4, y = 0, is_online = True\<rparr>, 60),
              (\<lparr>steam_id = 7, name = ''ann'', x = 0, y = 0, is_online = True\<rparr>, 120),
              (\<lparr>steam_id = 7, name = ''ann'', x = 0, y = 0, is_online = True\<rparr>, 180),
              (\<lparr>steam_id = 7, name = ''ann'', x = 0, y = 0, is_online = True\<rparr>, 240),
              (\<lparr>steam_id = 7, name = ''ann'', x = 0, y = 0, is_online = True\<rparr>, 300)]
             init_state) 7 = 10
   \<and> notify_threshold
        (handle_idle \<lparr>steam_id = 7, name = ''ann'', x = 9, y = 0, is_online = True\<rparr> 360
           (init_state\<lparr>last_positions := [7 \<mapsto> (0, 0)], idle_timers := [7 \<mapsto> 6],
                        idle_notify_intervals := [7 \<mapsto> 10]\<rparr>)) 7 = 5"
proof -
  let ?obs = "[(\<lparr>steam_id = 7, name = ''ann'', x = 0, y = 0, is_online = True\<rparr>, 0::real),
              (\<lparr>steam_id = 7, name = ''ann'', x = 1 / 4, y = 0, is_online = True\<rparr>, 60),
              (\<lparr>steam_id = 7, name = ''ann'', x = 0, y = 0, is_online = True\<rparr>, 120),
              (\<lparr>steam_id = 7, name = ''ann'', x = 0, y = 0, is_online = True\<rparr>, 180),
              (\<lparr>steam_id = 7, name = ''ann'', x = 0, y = 0, is_online = True\<rparr>, 240),
              (\<lparr>steam_id = 7, name = ''ann'', x = 0, y = 0, is_online = True\<rparr>, 300)]"
  let ?s = "init_state\<lparr>last_positions := [7 \<mapsto> (0, 0)], idle_timers := [7 \<mapsto> 6],
                        idle_notify_intervals := [7 \<mapsto> 10]\<rparr>"
  let ?p = "\<lparr>steam_id = 7, name = ''ann'', x = 9, y = 0, is_online = True\<rparr>"
  have still: "\<forall>ob \<in> set ?obs. same_place 7 (0, 0) ob"
    by (simp add: same_place_def py_round_def)
  have start: "last_positions init_state 7 = None \<or> last_positions init_state 7 = Some (0, 0)"
    "idle_count init_state 7 = 0" "notify_threshold init_state 7 = 5"
    by (simp_all add: init_state_def idle_count_def notify_threshold_def)
  have moved: "last_positions ?s (steam_id ?p) = Some (0, 0)"
    "(0, 0) \<noteq> (py_round (x ?p), py_round (y ?p))"
    by (simp_all add: py_round_def)
  have run: "notify_threshold (idle_run ?obs init_state) 7 = threshold_after (length ?obs)"
    "outbox (idle_run ?obs init_state) = outbox init_state @ warnings_from 0 ?obs"
    using idle_warning_schedule[of ?obs 7 "(0, 0)" init_state] still start by blast+
  have reset: "notify_threshold (handle_idle ?p 360 ?s) (steam_id ?p) = 5"
    using idle_warning_schedule[of "[]" 7 "(0, 0)" ?s ?p "(0, 0)" 360] moved by blast
  have 1: "outbox (idle_run ?obs init_state) = [IdleWarning ''ann'' ''5m'']"
    unfolding run(2) by (simp add: init_state_def warning_due_def warning_texts)
  have 2: "notify_threshold (idle_run ?obs init_state) 7 = 10"
    unfolding run(1) by (simp add: threshold_after_def)
  have 3: "notify_threshold (handle_idle ?p 360 ?s) 7 = 5"
    using reset by simp
  show ?thesis using 1 2 3 by blast
qed

section \<open>Idle seconds and total seconds\<close>

lemma within_total_new_entry: "idle_within_total (new_entry p now)"
  by (simp add: idle_within_total_def new_entry_def getitem_def)

lemma within_total_dest:
  assumes "idle_within_total e"
  obtains d i t where "e = PDict d" and "map_of d ''idle'' = Some (PInt i)"
    and "map_of d ''total'' = Some (PInt t)" and "i \<le> t"
proof -
  obtain d where d: "e = PDict d"
    using assms by (cases e) (simp_all add: idle_within_total_def getitem_def)
  obtain vi where vi: "map_of d ''idle'' = Some vi"
    using assms d by (cases "map_of d ''idle''") (simp_all add: idle_within_total_def getitem_def)
  obtain i where i: "vi = PInt i"
    using assms d vi by (cases vi) (simp_all add: idle_within_total_def getitem_def)
  obtain vt where vt: "map_of d ''total'' = Some vt"
    using assms d vi i
    by (cases "map_of d ''total''") (simp_all add: idle_within_total_def getitem_def)
  obtain t where t: "vt = PInt t"
    using assms d vi i vt by (cases vt) (simp_all add: idle_within_total_def getitem_def)
  have "i \<le> t"
    using assms d vi i vt t by (simp add: idle_within_total_def getitem_def)
  then show ?thesis using that d vi i vt t by simp
qed

lemma within_totalI:
  "map_of d ''idle'' = Some (PInt i) \<Longrightarrow> map_of d ''total'' = Some (PInt t) \<Longrightarrow> i \<le> t
     \<Longrightarrow> idle_within_total (PDict d)"
  by (simp add: idle_within_total_def getitem_def)

text \<open>
  The three statements of the online branch (lines 191 to 194) on an entry that satisfies
  the invariant, with a delta that is not negative: none raises, and the entry they leave
  satisfies the invariant. \<open>b\<close> is the test of line 192.
\<close>

lemma online_branch_entry:
  assumes "idle_within_total e" and "0 \<le> delta"
  shows "\<exists>e1 e2 e3. item_iadd e ''total'' delta = Inr e1
           \<and> (if b then item_iadd e1 ''idle'' delta else Inr e1) = Inr e2
           \<and> setitem e2 ''last'' v = Inr e3 \<and> idle_within_total e3"
proof -
  from assms(1) obtain d i t where e: "e = PDict d" "map_of d ''idle'' = Some (PInt i)"
    "map_of d ''total'' = Some (PInt t)" "i \<le> t"
    by (rule within_total_dest)
  let ?d1 = "dict_set ''total'' (PInt (t + delta)) d"
  let ?d2 = "if b then dict_set ''idle'' (PInt (i + delta)) ?d1 else ?d1"
  let ?d3 = "dict_set ''last'' v ?d2"
  have 1: "item_iadd e ''total'' delta = Inr (PDict ?d1)"
    using e by (simp add: item_iadd_def getitem_def setitem_def py_add_int_def)
  have 2: "(if b then item_iadd (PDict ?d1) ''idle'' delta else Inr (PDict ?d1)) = Inr (PDict ?d2)"
    using e by (simp add: item_iadd_def getitem_def setitem_def py_add_int_def map_of_dict_set)
  have 3: "setitem (PDict ?d2) ''last'' v = Inr (PDict ?d3)"
    by (simp add: setitem_def)
  have 4: "idle_within_total (PDict ?d3)"
    using e assms(2)
    by (auto intro!: within_totalI[where i="if b then i + delta else i" and t="t + delta"]
          simp: map_of_dict_set)
  show ?thesis using 1 2 3 4 by blast
qed

lemma py_trunc_nonneg: "0 \<le> r \<Longrightarrow> 0 \<le> py_trunc r"
  by (simp add: py_trunc_def)

text \<open>
  One call of \<open>update_presence\<close> whose clock reading is not earlier than the stored ones:
  the invariant is kept, and the call returns normally.
\<close>

lemma update_presence_seen_ok:
  assumes "seen_ok s" and "clock_ok s [now]"
  shows "seen_ok (snd (update_presence p now s)) \<and> fst (update_presence p now s) = Inr ()"
proof -
  let ?sid = "steam_id p"
  let ?seen = "case map_of (player_seen s) ?sid of
                 None \<Rightarrow> player_seen s @ [(?sid, new_entry p now)]
               | Some _ \<Rightarrow> player_seen s"
  let ?e = "case map_of (player_seen s) ?sid of None \<Rightarrow> new_entry p now | Some e \<Rightarrow> e"
  let ?d = "py_trunc (now - (case last_update s ?sid of None \<Rightarrow> now | Some t \<Rightarrow> t))"
  let ?b = "1 \<le> (case idle_timers s ?sid of None \<Rightarrow> 0 | Some c \<Rightarrow> c)"
  have seen: "\<forall>(k, e) \<in> set ?seen. idle_within_total e"
    using assms(1) by (auto simp: seen_ok_def within_total_new_entry split: option.splits)
  have e: "idle_within_total ?e"
    using assms(1)
    by (auto simp: seen_ok_def within_total_new_entry split: option.splits dest!: map_of_SomeD)
  have d: "0 \<le> ?d"
    using assms(2) by (auto simp: clock_ok_def intro!: py_trunc_nonneg split: option.splits)
  show ?thesis
  proof (cases "is_online p")
    case False
    then show ?thesis
      using seen by (simp add: update_presence_def Let_def seen_ok_def)
  next
    case True
    obtain e1 e2 e3 where st: "item_iadd ?e ''total'' ?d = Inr e1"
      "(if ?b then item_iadd e1 ''idle'' ?d else Inr e1) = Inr e2"
      "setitem e2 ''last'' (PInt (py_trunc now)) = Inr e3" "idle_within_total e3"
      using online_branch_entry[OF e d, of ?b "PInt (py_trunc now)"] by blast
    have "\<forall>(k, e) \<in> set (dict_set ?sid e3 ?seen). idle_within_total e"
      using seen st(4) set_dict_set[of ?sid e3 ?seen] by blast
    then show ?thesis
      using True st(1,2,3) by (simp add: update_presence_def Let_def seen_ok_def)
  qed
qed

lemma update_presence_last_update:
  "last_update (snd (update_presence p now s)) = (last_update s)(steam_id p \<mapsto> now)"
  unfolding update_presence_def Let_def by (simp split: sum.split)

lemma handle_idle_frame:
  "player_seen (handle_idle p t s) = player_seen s
   \<and> last_update (handle_idle p t s) = last_update s"
  by (simp add: handle_idle_def Let_def)

lemma run_seen_ok:
  assumes "seen_ok s" and "clock_ok s (presence_times evs)" and "sorted (presence_times evs)"
  shows "seen_ok (run evs s)"
  using assms
proof (induction evs arbitrary: s)
  case Nil
  then show ?case by (simp add: run_def)
next
  case (Cons ev evs)
  show ?case
  proof (cases ev)
    case (Presence p now)
    have c: "clock_ok s [now]"
      using Cons.prems(2) Presence by (simp add: clock_ok_def)
    have 1: "seen_ok (step ev s)"
      using update_presence_seen_ok[OF Cons.prems(1) c] Presence by simp
    have 2: "clock_ok (step ev s) (presence_times evs)"
      using Cons.prems(2,3) Presence by (auto simp: clock_ok_def update_presence_last_update)
    have 3: "sorted (presence_times evs)"
      using Cons.prems(3) Presence by simp
    show ?thesis
      using Cons.IH[OF 1 2 3] by (simp add: run_def)
  next
    case (Idle p t)
    have 1: "seen_ok (step ev s)"
      using Cons.prems(1) Idle by (simp add: seen_ok_def handle_idle_frame)
    have 2: "clock_ok (step ev s) (presence_times evs)"
      using Cons.prems(2) Idle by (simp add: clock_ok_def handle_idle_frame)
    have 3: "sorted (presence_times evs)"
      using Cons.prems(3) Idle by simp
    show ?thesis
      using Cons.IH[OF 1 2 3] by (simp add: run_def)
  qed
qed

text \<open>
  Claim C2, as stated: after every sequence of calls the idle seconds are at most the
  total seconds. It fails when the clock steps back between two calls: \<open>now\<close> is read from
  \<open>time.time()\<close> (line 168), and a negative delta is subtracted from the total at line 191
  while line 192 leaves the idle seconds alone for a player who has just moved. Here player
  7 is idle for 100 seconds, moves, and the next reading is 40: the entry holds idle 100
  and total 40.
\<close>

theorem clock_step_back_counterexample:
  "player_seen
     (run [Presence \<lparr>steam_id = 7, name = ''ann'', x = 0, y = 0, is_online = True\<rparr> 0,
           Idle \<lparr>steam_id = 7, name = ''ann'', x = 0, y = 0, is_online = True\<rparr> 0,
           Presence \<lparr>steam_id = 7, name = ''ann'', x = 0, y = 0, is_online = True\<rparr> 100,
           Idle \<lparr>steam_id = 7, name = ''ann'', x = 9, y = 0, is_online = True\<rparr> 100,
           Presence \<lparr>steam_id = 7, name = ''ann'', x = 9, y = 0, is_online = True\<rparr> 40]
          init_state)
     = [(7, PDict [(''name'', PStr ''ann''), (''first'', PInt 0), (''last'', PInt 40),
                   (''total'', PInt 40), (''idle'', PInt 100)])]
   \<and> \<not> idle_within_total
          (PDict [(''name'', PStr ''ann''), (''first'', PInt 0), (''last'', PInt 40),
                  (''total'', PInt 40), (''idle'', PInt 100)])"
  by (simp add: run_def update_presence_def handle_idle_def init_state_def Let_def
        getitem_def setitem_def item_iadd_def py_add_int_def new_entry_def py_trunc_def
        py_round_def idle_within_total_def)

text \<open>
  Claim C2, amended. Start from the initial state, where no player is stored, and make any
  sequence of calls of \<open>update_presence\<close> and \<open>handle_idle\<close>, for any players and in any
  order. If the clock readings of the \<open>update_presence\<close> calls do not decrease, then every
  stored entry holds integer idle and total seconds with \<open>idle \<le> total\<close>.
\<close>

theorem idle_never_exceeds_total:
  assumes "sorted (presence_times evs)"
  shows "\<forall>(sid, e) \<in> set (player_seen (run evs init_state)). idle_within_total e"
  using run_seen_ok[of init_state evs] assms
  by (simp add: seen_ok_def clock_ok_def init_state_def)

theorem idle_never_exceeds_total_witness:
  "player_seen
     (run [Presence \<lparr>steam_id = 7, name = ''ann'', x = 0, y = 0, is_online = True\<rparr> 0,
           Presence \<lparr>steam_id = 7, name = ''ann'', x = 0, y = 0, is_online = True\<rparr> 60,
           Idle \<lparr>steam_id = 7, name = ''ann'', x = 0, y = 0, is_online = True\<rparr> 61,
           Presence \<lparr>steam_id = 7, name = ''ann'', x = 0, y = 0, is_online = True\<rparr> 120]
          init_state)
     = [(7, PDict [(''name'', PStr ''ann''), (''first'', PInt 0), (''last'', PInt 120),
                   (''total'', PInt 120), (''idle'', PInt 60)])]
   \<and> idle_within_total
        (PDict [(''name'', PStr ''ann''), (''first'', PInt 0), (''last'', PInt 120),
                (''total'', PInt 120), (''idle'', PInt 60)])"
proof -
  let ?evs = "[Presence \<lparr>steam_id = 7, name = ''ann'', x = 0, y = 0, is_online = True\<rparr> 0,
           Presence \<lparr>steam_id = 7, name = ''ann'', x = 0, y = 0, is_online = True\<rparr> 60,
           Idle \<lparr>steam_id = 7, name = ''ann'', x = 0, y = 0, is_online = True\<rparr> 61,
           Presence \<lparr>steam_id = 7, name = ''ann'', x = 0, y = 0, is_online = True\<rparr> 120]"
  have seen: "player_seen (run ?evs init_state)
     = [(7, PDict [(''name'', PStr ''ann''), (''first'', PInt 0), (''last'', PInt 120),
                   (''total'', PInt 120), (''idle'', PInt 60)])]"
    by (simp add: run_def update_presence_def handle_idle_def init_state_def Let_def
          getitem_def setitem_def item_iadd_def py_add_int_def new_entry_def py_trunc_def
          py_round_def)
  have "sorted (presence_times ?evs)"
    by simp
  then have "\<forall>(sid, e) \<in> set (player_seen (run ?evs init_state)). idle_within_total e"
    by (rule idle_never_exceeds_total)
  then show ?thesis
    unfolding seen by simp
qed

section \<open>Saving and loading\<close>

lemma digit_char_ok: "d < 10 \<Longrightarrow> is_digit (digit_char d) \<and> digit_val (digit_char d) = d"
proof -
  assume "d < 10"
  then have "d \<in> {0, 1, 2, 3, 4, 5, 6, 7, 8, 9}"
    by auto
  then show ?thesis
    by (auto simp: digit_char_def is_digit_def digit_val_def)
qed

lemma is_digit_not_space: "is_digit c \<Longrightarrow> \<not> is_space c"
  by (auto simp: is_digit_def is_space_def Let_def)

lemma is_digit_not_sign: "is_digit c \<Longrightarrow> c \<noteq> CHR ''-'' \<and> c \<noteq> CHR ''+''"
  by (auto simp: is_digit_def)

lemma str_nat_digits: "str_nat n \<noteq> [] \<and> (\<forall>c \<in> set (str_nat n). is_digit c)"
proof (induction n rule: str_nat.induct)
  case (1 n)
  show ?case
  proof (cases "n < 10")
    case True
    then show ?thesis
      using digit_char_ok[of n] by (simp add: str_nat.simps[of n])
  next
    case False
    then show ?thesis
      using 1 digit_char_ok[of "n mod 10"] by (simp add: str_nat.simps[of n])
  qed
qed

lemma parse_rest_digits:
  "\<forall>c \<in> set ds. is_digit c \<Longrightarrow>
     parse_rest ds n = Some (fold (\<lambda>c a. 10 * a + digit_val c) ds n)"
  by (induction ds n rule: parse_rest.induct) auto

lemma parse_digits_digits:
  "ds \<noteq> [] \<Longrightarrow> \<forall>c \<in> set ds. is_digit c \<Longrightarrow>
     parse_digits ds = Some (fold (\<lambda>c a. 10 * a + digit_val c) ds 0)"
  by (cases ds) (auto simp: parse_digits_def parse_rest_digits)

lemma fold_str_nat: "fold (\<lambda>c a. 10 * a + digit_val c) (str_nat n) 0 = n"
proof (induction n rule: str_nat.induct)
  case (1 n)
  show ?case
  proof (cases "n < 10")
    case True
    then show ?thesis
      using digit_char_ok[of n] by (simp add: str_nat.simps[of n])
  next
    case False
    then show ?thesis
      using 1 digit_char_ok[of "n mod 10"] by (simp add: str_nat.simps[of n])
  qed
qed

lemma parse_digits_str_nat: "parse_digits (str_nat n) = Some n"
  using parse_digits_digits[of "str_nat n"] str_nat_digits[of n] fold_str_nat[of n] by simp

lemma strip_id: "s \<noteq> [] \<Longrightarrow> \<not> is_space (hd s) \<Longrightarrow> \<not> is_space (last s) \<Longrightarrow> strip s = s"
proof -
  assume a: "s \<noteq> []" "\<not> is_space (hd s)" "\<not> is_space (last s)"
  then have 1: "dropWhile is_space s = s"
    by (cases s) auto
  have "rev s \<noteq> []" "\<not> is_space (hd (rev s))"
    using a by (auto simp: hd_rev)
  then have 2: "dropWhile is_space (rev s) = rev s"
    by (cases "rev s") auto
  show ?thesis
    by (simp add: strip_def 1 2)
qed

lemma strip_str_nat: "strip (str_nat n) = str_nat n"
proof -
  have ne: "str_nat n \<noteq> []" and dg: "\<forall>c \<in> set (str_nat n). is_digit c"
    using str_nat_digits[of n] by auto
  have "is_digit (hd (str_nat n))" "is_digit (last (str_nat n))"
    using ne dg by auto
  then show ?thesis
    using ne by (intro strip_id) (auto dest: is_digit_not_space)
qed

lemma strip_minus_str_nat: "strip (CHR ''-'' # str_nat n) = CHR ''-'' # str_nat n"
proof -
  have ne: "str_nat n \<noteq> []" and dg: "\<forall>c \<in> set (str_nat n). is_digit c"
    using str_nat_digits[of n] by auto
  have "is_digit (last (str_nat n))"
    using ne dg by auto
  then show ?thesis
    using ne by (intro strip_id) (auto dest: is_digit_not_space simp: is_space_def)
qed

text \<open>\<open>int(str(k)) == k\<close> for every integer.\<close>

lemma py_int_py_str: "py_int (py_str k) = Some k"
proof (cases "k < 0")
  case True
  then show ?thesis
    by (simp add: py_int_def py_str_def strip_minus_str_nat parse_digits_str_nat)
next
  case False
  have ne: "str_nat (nat k) \<noteq> []" and dg: "\<forall>c \<in> set (str_nat (nat k)). is_digit c"
    using str_nat_digits[of "nat k"] by auto
  then obtain c r where cr: "str_nat (nat k) = c # r"
    by (cases "str_nat (nat k)") auto
  then have "is_digit c"
    using dg by simp
  then have "c \<noteq> CHR ''-''" "c \<noteq> CHR ''+''"
    using is_digit_not_sign by auto
  moreover have "strip (c # r) = c # r"
    using strip_str_nat[of "nat k"] cr by simp
  ultimately show ?thesis
    using False cr parse_digits_str_nat[of "nat k"] by (simp add: py_int_def py_str_def)
qed

lemma py_str_inj: "py_str a = py_str b \<Longrightarrow> a = b"
  by (metis py_int_py_str option.inject)

lemma save_items_distinct:
  "distinct (map fst acc @ map (\<lambda>kv. py_str (fst kv)) kvs) \<Longrightarrow>
     save_items kvs acc = acc @ map (\<lambda>(k, v). (py_str k, v)) kvs"
proof (induction kvs arbitrary: acc)
  case Nil
  then show ?case by simp
next
  case (Cons kv kvs)
  obtain k v where kv: "kv = (k, v)" by (cases kv)
  have fresh: "map_of acc (py_str k) = None"
    using Cons.prems kv by (auto simp: map_of_eq_None_iff)
  have "distinct (map fst (acc @ [(py_str k, v)]) @ map (\<lambda>kv. py_str (fst kv)) kvs)"
    using Cons.prems kv by auto
  then show ?case
    using Cons.IH[of "acc @ [(py_str k, v)]"] kv fresh by (simp add: dict_set_fresh)
qed

lemma load_items_distinct:
  "distinct (map fst acc @ map fst kvs) \<Longrightarrow>
     load_items (map (\<lambda>(k, v). (py_str k, v)) kvs) acc = Inr (acc @ kvs)"
proof (induction kvs arbitrary: acc)
  case Nil
  then show ?case by simp
next
  case (Cons kv kvs)
  obtain k v where kv: "kv = (k, v)" by (cases kv)
  have fresh: "map_of acc k = None"
    using Cons.prems kv by (auto simp: map_of_eq_None_iff)
  have "distinct (map fst (acc @ [(k, v)]) @ map fst kvs)"
    using Cons.prems kv by auto
  then show ?case
    using Cons.IH[of "acc @ [(k, v)]"] kv fresh by (simp add: dict_set_fresh py_int_py_str)
qed

text \<open>The keys of a dictionary stay distinct under assignment, so every state the program
  reaches from the initial one stores each player once.\<close>

lemma distinct_dict_set: "distinct (map fst d) \<Longrightarrow> distinct (map fst (dict_set k v d))"
proof (induction d)
  case Nil
  then show ?case by simp
next
  case (Cons kv d)
  have "fst ` set (dict_set k v d) \<subseteq> insert k (fst ` set d)"
    using set_dict_set[of k v d] by force
  then show ?case
    using Cons by (cases kv) auto
qed

lemma update_presence_keys_distinct:
  assumes "distinct (map fst (player_seen s))"
  shows "distinct (map fst (player_seen (snd (update_presence p now s))))"
proof -
  let ?seen = "case map_of (player_seen s) (steam_id p) of
                 None \<Rightarrow> player_seen s @ [(steam_id p, new_entry p now)]
               | Some _ \<Rightarrow> player_seen s"
  have "distinct (map fst ?seen)"
    using assms by (auto simp: map_of_eq_None_iff split: option.splits)
  then show ?thesis
    unfolding update_presence_def Let_def
    by (simp add: distinct_dict_set split: sum.split)
qed

lemma run_keys_distinct:
  "distinct (map fst (player_seen s)) \<Longrightarrow> distinct (map fst (player_seen (run evs s)))"
proof (induction evs arbitrary: s)
  case Nil
  then show ?case by (simp add: run_def)
next
  case (Cons ev evs)
  have "distinct (map fst (player_seen (step ev s)))"
    using Cons.prems by (cases ev) (simp_all add: update_presence_keys_distinct handle_idle_frame)
  then show ?case
    using Cons.IH[of "step ev s"] by (simp add: run_def)
qed

text \<open>
  Claim C7. Take any \<open>player_seen\<close> dictionary, its keys integers and each key stored once
  as in every dictionary. After an iteration of the save loop that can open the file,
  \<open>load_player_data\<close> returns normally, by the regular branch, and the dictionary it
  assigns is the one saved: the same keys, converted to strings and back, in the same
  order, and under each key the same entry with all its items.
\<close>

theorem save_then_load:
  assumes "distinct (map fst (player_seen s))"
  shows "load_player_data (save_player_data True s f) s'
           = (Inr Loaded, s'\<lparr>player_seen := player_seen s\<rparr>)"
proof -
  have "distinct (map (\<lambda>kv. py_str (fst kv)) (player_seen s))"
    using assms by (auto simp: distinct_map inj_on_def dest: py_str_inj)
  then have "save_items (player_seen s) [] = map (\<lambda>(k, v). (py_str k, v)) (player_seen s)"
    using save_items_distinct[of "[]" "player_seen s"] by simp
  then show ?thesis
    using load_items_distinct[of "[]" "player_seen s"] assms
    by (simp add: load_player_data_def save_player_data_def)
qed

theorem save_then_load_witness:
  "load_player_data
     (save_player_data True
        (init_state\<lparr>player_seen :=
           [(76561198000000001,
             PDict [(''name'', PStr ''ann''), (''first'', PInt 1700000000),
                    (''last'', PInt 1700000120), (''total'', PInt 120), (''idle'', PInt 60)]),
            (7,
             PDict [(''name'', PStr ''bob''), (''first'', PInt 1700000060),
                    (''last'', PInt 1700000060), (''total'', PInt 0), (''idle'', PInt 0)])]\<rparr>)
        Absent)
     init_state
   = (Inr Loaded,
      init_state\<lparr>player_seen :=
           [(76561198000000001,
             PDict [(''name'', PStr ''ann''), (''first'', PInt 1700000000),
                    (''last'', PInt 1700000120), (''total'', PInt 120), (''idle'', PInt 60)]),
            (7,
             PDict [(''name'', PStr ''bob''), (''first'', PInt 1700000060),
                    (''last'', PInt 1700000060), (''total'', PInt 0), (''idle'', PInt 0)])]\<rparr>)"
  using save_then_load
          [of "init_state\<lparr>player_seen :=
           [(76561198000000001,
             PDict [(''name'', PStr ''ann''), (''first'', PInt 1700000000),
                    (''last'', PInt 1700000120), (''total'', PInt 120), (''idle'', PInt 60)]),
            (7,
             PDict [(''name'', PStr ''bob''), (''first'', PInt 1700000060),
                    (''last'', PInt 1700000060), (''total'', PInt 0), (''idle'', PInt 0)])]\<rparr>"
              Absent init_state]
  by simp

end
